theory Spec2Isabelle
  imports Complex_Main
begin

section \<open>Python string primitives used by the pipeline\<close>

text \<open>
  Python \<open>str\<close> values are modelled as \<open>string\<close>, read as sequences of code points
  below 256. \<open>is_space\<close> is \<open>str.isspace\<close> on one such code point: TAB, LF, VT, FF, CR,
  the separators 28..31, the blank, NEL (133) and the no-break space (160).
\<close>

definition newline :: char where
  "newline = CHR 0x0A"

definition is_space :: "char \<Rightarrow> bool" where
  "is_space c =
     (let n = (of_char c :: nat)
      in (9 \<le> n \<and> n \<le> 13) \<or> (28 \<le> n \<and> n \<le> 32) \<or> n = 133 \<or> n = 160)"

text \<open>\<open>s.strip()\<close>: drop the whitespace at both ends.\<close>

definition py_strip :: "string \<Rightarrow> string" where
  "py_strip s = rev (dropWhile is_space (rev (dropWhile is_space s)))"

text \<open>\<open>s.split(c)\<close> for a one-character separator: never the empty list.\<close>

fun py_split :: "char \<Rightarrow> string \<Rightarrow> string list" where
  "py_split c [] = [[]]"
| "py_split c (x # xs) =
     (if x = c then [] # py_split c xs
      else (case py_split c xs of
              [] \<Rightarrow> [[x]]
            | w # ws \<Rightarrow> (x # w) # ws))"

text \<open>\<open>sep.join(parts)\<close> for a one-character separator.\<close>

fun py_join :: "char \<Rightarrow> string list \<Rightarrow> string" where
  "py_join c [] = []"
| "py_join c [l] = l"
| "py_join c (l # m # ls) = l @ c # py_join c (m # ls)"

text \<open>\<open>s.find(c)\<close> and \<open>s.rfind(c)\<close> for a one-character needle: the index, or -1.\<close>

fun py_find :: "char \<Rightarrow> string \<Rightarrow> int" where
  "py_find c [] = -1"
| "py_find c (x # xs) =
     (if x = c then 0
      else (let r = py_find c xs in if r = -1 then -1 else r + 1))"

definition py_rfind :: "char \<Rightarrow> string \<Rightarrow> int" where
  "py_rfind c s =
     (let r = py_find c (rev s) in if r = -1 then -1 else int (length s) - 1 - r)"

text \<open>\<open>s[i:j]\<close> for indices that are not negative.\<close>

definition py_slice :: "string \<Rightarrow> int \<Rightarrow> int \<Rightarrow> string" where
  "py_slice s i j = take (nat j - nat i) (drop (nat i) s)"

text \<open>\<open>str(n)\<close> for an integer: decimal digits, a minus sign for negative numbers.\<close>

definition digit_char :: "nat \<Rightarrow> char" where
  "digit_char d = ''0123456789'' ! d"

function str_of_nat :: "nat \<Rightarrow> string" where
  "str_of_nat n =
     (if n < 10 then [digit_char n] else str_of_nat (n div 10) @ [digit_char (n mod 10)])"
  by pat_completeness auto
termination
  by (relation "measure id") auto

definition str_of_int :: "int \<Rightarrow> string" where
  "str_of_int i = (if i < 0 then CHR ''-'' # str_of_nat (nat (- i)) else str_of_nat (nat i))"

text \<open>The format specification \<open>:>w\<close>: right-aligned in a field of width \<open>w\<close>, filled with
  blanks, never cut.\<close>

definition rjust :: "nat \<Rightarrow> string \<Rightarrow> string" where
  "rjust w s = replicate (w - length s) CHR '' '' @ s"

section \<open>Rich-text documents (jira\_client.py, text\_to\_adf)\<close>

datatype adf_inline = AdfText string

datatype adf_block = AdfParagraph "adf_inline list"

record adf_doc =
  version :: nat
  doc_type :: string
  content :: "adf_block list"

text \<open>The loop over the lines: one paragraph for each line that is not blank.\<close>

fun paragraphs_of :: "string list \<Rightarrow> adf_block list" where
  "paragraphs_of [] = []"
| "paragraphs_of (line # ls) =
     (if py_strip line \<noteq> [] then AdfParagraph [AdfText (py_strip line)] # paragraphs_of ls
      else paragraphs_of ls)"

definition text_to_adf :: "string \<Rightarrow> adf_doc" where
  "text_to_adf text =
     (if text = [] then \<lparr>version = 1, doc_type = ''doc'', content = []\<rparr>
      else
        (let lines = py_split newline (py_strip text);
             paragraphs = paragraphs_of lines;
             paragraphs = (if paragraphs = [] then [AdfParagraph []] else paragraphs)
         in \<lparr>version = 1, doc_type = ''doc'', content = paragraphs\<rparr>))"

section \<open>Bug records and the clip planner (app.py)\<close>

text \<open>
  A bug record is the dictionary the model returned; a key may be absent. Seconds are
  modelled as rationals: a JSON number is an integer or a decimal fraction.
\<close>

record bug =
  summary :: "string option"
  description :: "string option"
  priority :: "string option"
  start_sec :: "rat option"
  end_sec :: "rat option"





section \<open>Transcript formatter (utils.py, flatten\_segments\_text)\<close>

text \<open>
  A segment is dictionary-like (\<open>DictSeg\<close>, read with \<open>get\<close>) or an object
  (\<open>ObjSeg\<close>, read with \<open>getattr\<close>); in both, \<open>start\<close>, \<open>end\<close> and \<open>text\<close>
  may be absent. Seconds are rationals. \<open>py_int\<close> is \<open>int(x)\<close> on a number: the
  fractional part is dropped, towards zero.
\<close>

datatype segment =
    DictSeg "rat option" "rat option" "string option"
  | ObjSeg "rat option" "rat option" "string option"

definition py_int :: "rat \<Rightarrow> int" where
  "py_int x = (if 0 \<le> x then \<lfloor>x\<rfloor> else \<lceil>x\<rceil>)"

fun seg_line :: "segment \<Rightarrow> string" where
  "seg_line (DictSeg st en tx) =
     (let start_s = (case st of None \<Rightarrow> 0 | Some x \<Rightarrow> py_int x);
          end_s = (case en of None \<Rightarrow> max start_s 0 | Some y \<Rightarrow> py_int y);
          text = py_strip (case tx of None \<Rightarrow> [] | Some t \<Rightarrow> t)
      in ''['' @ rjust 3 (str_of_int start_s) @ ''-'' @ rjust 3 (str_of_int end_s) @ ''s] '' @ text)"
| "seg_line (ObjSeg st en tx) =
     (let start_s = (case st of None \<Rightarrow> 0 | Some x \<Rightarrow> py_int x);
          end_s = (case en of None \<Rightarrow> max start_s 0 | Some y \<Rightarrow> py_int y);
          text = py_strip (case tx of None \<Rightarrow> [] | Some t \<Rightarrow> t)
      in ''['' @ rjust 3 (str_of_int start_s) @ ''-'' @ rjust 3 (str_of_int end_s) @ ''s] '' @ text)"

definition flatten_segments_text :: "segment list \<Rightarrow> string" where
  "flatten_segments_text segments = py_join newline (map seg_line segments)"

section \<open>Recovery of the model's JSON (analysis.py)\<close>

text \<open>
  The JSON parser is the standard library's: every function below takes it as the
  parameter \<open>loads\<close>, \<open>None\<close> when \<open>json.loads\<close> raises. The argument \<open>reply\<close> is
  the text of the model's reply, \<open>None\<close> when the reply has no text.
\<close>

datatype json =
    JNull
  | JBool bool
  | JNum rat
  | JStr string
  | JArr "json list"
  | JObj "(string \<times> json) list"

definition or_default :: "string option \<Rightarrow> string \<Rightarrow> string" where
  "or_default reply d = (case reply of None \<Rightarrow> d | Some s \<Rightarrow> if s = [] then d else s)"

definition analyze_with_transcript :: "(string \<Rightarrow> json option) \<Rightarrow> string option \<Rightarrow> json" where
  "analyze_with_transcript loads reply =
     (let raw = or_default reply ''[]''
      in case loads raw of
           Some v \<Rightarrow> v
         | None \<Rightarrow>
             (let start_idx = py_find CHR ''['' raw;
                  end_idx = py_rfind CHR '']'' raw;
                  slice = (if start_idx \<noteq> -1 \<and> end_idx \<noteq> -1
                           then py_slice raw start_idx (end_idx + 1) else ''[]'')
              in case loads slice of
                   Some v \<Rightarrow> v
                 | None \<Rightarrow> JArr []))"

definition parsing_failed :: json where
  "parsing_failed = JObj [(''candidates'', JArr []), (''notes'', JStr ''Parsing failed'')]"

definition find_candidate_seconds :: "(string \<Rightarrow> json option) \<Rightarrow> string option \<Rightarrow> json" where
  "find_candidate_seconds loads reply =
     (let raw = or_default reply ''{}''
      in case loads raw of
           Some v \<Rightarrow> v
         | None \<Rightarrow>
             (let start_idx = py_find CHR ''{'' raw;
                  end_idx = py_rfind CHR ''}'' raw;
                  fp_slice = (if start_idx \<noteq> -1 \<and> end_idx \<noteq> -1
                              then py_slice raw start_idx (end_idx + 1) else ''{}'')
              in case loads fp_slice of
                   Some v \<Rightarrow> v
                 | None \<Rightarrow> parsing_failed))"

text \<open>
  The parser restricted to the texts at which the theorems below evaluate it: the empty
  array, the empty object and one array of one record; it rejects every other text, as
  \<open>json.loads\<close> rejects the other texts it is applied to below.
\<close>

definition loads_sample :: "string \<Rightarrow> json option" where
  "loads_sample s =
     (if s = ''[]'' then Some (JArr [])
      else if s = ''{}'' then Some (JObj [])
      else if s = ''[{\"summary\":\"X\"}]'' then Some (JArr [JObj [(''summary'', JStr ''X'')]])
      else None)"

section \<open>Attachment uploader (jira\_client.py, attach\_file\_to\_issue)\<close>

text \<open>
  What the function sees of the file: whether the path exists, the result of
  \<open>os.path.getsize\<close> and the result of opening and reading it (\<open>Inl\<close> carries the
  text of the exception raised instead). Bytes are characters.
\<close>

record file_view =
  f_exists :: bool
  f_getsize :: "string + nat"
  f_read :: "string + string"

text \<open>
  What one attempt of the loop meets: the file cannot be reopened (no request is sent), a
  response with its status code and text, or an exception of \<open>requests.post\<close>:
  \<open>Timeout\<close>, another \<open>RequestException\<close>, or any other exception.
\<close>

datatype attempt_outcome =
    OpenFailed string
  | Response int string
  | Timeout
  | RequestException string
  | OtherException string

text \<open>The effects: a request (file name sent, timeout in seconds) and a sleep (seconds).\<close>

datatype event = Post string nat | Sleep nat

text \<open>
  \<open>f"{file_size / 1024 / 1024:.1f}"\<close>. The two divisions by 1024 are exact in binary
  floating point for every size below \<open>2^53\<close>, and the format rounds the exact value to
  one decimal, ties to even.
\<close>

definition fmt_mb :: "nat \<Rightarrow> string" where
  "fmt_mb file_size =
     (let q = (file_size * 10) div (1024 * 1024);
          r = (file_size * 10) mod (1024 * 1024);
          t = (if 2 * r > 1024 * 1024 \<or> (2 * r = 1024 * 1024 \<and> odd q) then q + 1 else q)
      in str_of_nat (t div 10) @ ''.'' @ str_of_nat (t mod 10))"

text \<open>\<open>os.path.basename\<close>, \<open>str.lower\<close> on the letters A to Z, \<open>str.endswith\<close> and
  \<open>rsplit('.', 1)[0]\<close>.\<close>

definition basename :: "string \<Rightarrow> string" where
  "basename path = drop (nat (py_rfind CHR ''/'' path + 1)) path"

definition lower_char :: "char \<Rightarrow> char" where
  "lower_char c =
     (let n = (of_char c :: nat) in if 65 \<le> n \<and> n \<le> 90 then char_of (n + 32) else c)"

definition endswith :: "string \<Rightarrow> string \<Rightarrow> bool" where
  "endswith s suffix = (length suffix \<le> length s \<and> drop (length s - length suffix) s = suffix)"

definition rsplit_dot_first :: "string \<Rightarrow> string" where
  "rsplit_dot_first s =
     (let i = py_rfind CHR ''.'' s in if i = -1 then s else take (nat i) s)"

definition upload_name :: "string \<Rightarrow> string" where
  "upload_name file_path =
     (let filename = basename file_path
      in if \<not> endswith (map lower_char filename) ''.mp4''
         then rsplit_dot_first filename @ ''.mp4'' else filename)"

definition valid_header :: "string \<Rightarrow> bool" where
  "valid_header header =
     (py_slice header 4 8 = ''ftyp'' \<or>
      py_slice header 0 4 = [CHR 0x00, CHR 0x00, CHR 0x00, CHR 0x20] @ ''ftyp'')"

text \<open>
  One pass through the body of the retry loop: the function returns (\<open>Return\<close>), or the
  loop goes on with the error it recorded (\<open>Next\<close>).
\<close>

datatype flow = Return "bool \<times> string" | Next "string option"

definition attempt_label :: "nat \<Rightarrow> int \<Rightarrow> string" where
  "attempt_label attempt max_retries =
     ''(attempt '' @ str_of_int (int attempt + 1) @ ''/'' @ str_of_int max_retries @ '')''"

fun try_attempt :: "nat \<Rightarrow> int \<Rightarrow> attempt_outcome \<Rightarrow> flow" where
  "try_attempt attempt max_retries (Response status_code text) =
     (if status_code < 300 then Return (True, [])
      else
        (let error_text = (if text \<noteq> [] then take 500 text else ''No error message'');
             last_error = ''HTTP '' @ str_of_int status_code @ '': '' @ error_text
         in if 400 \<le> status_code \<and> status_code < 500 then Return (False, last_error)
            else Next (Some last_error)))"
| "try_attempt attempt max_retries Timeout =
     Next (Some (''Upload timeout '' @ attempt_label attempt max_retries))"
| "try_attempt attempt max_retries (RequestException e) =
     Next (Some (''Network error '' @ attempt_label attempt max_retries @ '': '' @ e))"
| "try_attempt attempt max_retries (OtherException e) =
     Next (Some (''Unexpected error '' @ attempt_label attempt max_retries @ '': '' @ e))"
| "try_attempt attempt max_retries (OpenFailed e) =
     Next (Some (''Unexpected error '' @ attempt_label attempt max_retries @ '': '' @ e))"

definition posted :: "string \<Rightarrow> nat \<Rightarrow> attempt_outcome \<Rightarrow> event list" where
  "posted filename timeout_seconds outcome =
     (case outcome of OpenFailed e \<Rightarrow> [] | _ \<Rightarrow> [Post filename timeout_seconds])"

text \<open>
  \<open>for attempt in range(max_retries)\<close>, from the attempt \<open>attempt\<close> on; \<open>net k\<close> is what
  attempt \<open>k\<close> meets, \<open>trace\<close> the effects so far.
\<close>

function upload_loop ::
  "(nat \<Rightarrow> attempt_outcome) \<Rightarrow> string \<Rightarrow> nat \<Rightarrow> int \<Rightarrow> nat \<Rightarrow> string option \<Rightarrow> event list
     \<Rightarrow> (bool \<times> string) \<times> event list" where
  "upload_loop net filename timeout_seconds max_retries attempt last_error trace =
     (if int attempt < max_retries then
        (let trace = trace @ posted filename timeout_seconds (net attempt)
         in case try_attempt attempt max_retries (net attempt) of
              Return r \<Rightarrow> (r, trace)
            | Next last_error \<Rightarrow>
                (let trace = (if int attempt < max_retries - 1
                              then trace @ [Sleep (2 ^ attempt)] else trace)
                 in upload_loop net filename timeout_seconds max_retries (attempt + 1)
                      last_error trace))
      else
        ((False, (case last_error of
                    None \<Rightarrow> ''Upload failed after all retries''
                  | Some m \<Rightarrow> if m = [] then ''Upload failed after all retries'' else m)),
         trace))"
  by pat_completeness auto
termination
  by (relation "measure (\<lambda>(net, filename, timeout_seconds, max_retries, attempt, last_error, trace).
        nat (max_retries - int attempt))") auto

text \<open>
  The whole operation. The credentials, the base address and the issue key only build the
  request and are left out; the result is the pair returned and the effects, in order.
\<close>

definition attach_file_to_issue ::
  "file_view \<Rightarrow> string \<Rightarrow> (nat \<Rightarrow> attempt_outcome) \<Rightarrow> int \<Rightarrow> (bool \<times> string) \<times> event list" where
  "attach_file_to_issue f file_path net max_retries =
     (if \<not> f_exists f then ((False, ''File not found: '' @ file_path), [])
      else
        (case f_getsize f of
           Inl e \<Rightarrow> ((False, ''Exception: '' @ e), [])
         | Inr file_size \<Rightarrow>
             if file_size = 0 then ((False, ''File is empty''), [])
             else if file_size > 10 * 1024 * 1024
             then ((False, ''File too large: '' @ fmt_mb file_size @ ''MB (max 10MB)''), [])
             else
               (case f_read f of
                  Inl e \<Rightarrow> ((False, ''Exception: '' @ e), [])
                | Inr bytes \<Rightarrow>
                    (let header = take 12 bytes
                     in if \<not> valid_header header
                        then ((False, ''File does not appear to be a valid MP4''), [])
                        else
                          (let filename = upload_name file_path;
                               timeout_seconds = min (max 60 (file_size div (1024 * 1024))) 300
                           in upload_loop net filename timeout_seconds max_retries 0 None [])))))"

section \<open>Ticket filer (jira\_client.py, create\_issues)\<close>

record jira_config =
  jira_url :: "string option"
  jira_token :: "string option"
  jira_email :: "string option"
  project_key :: "string option"

text \<open>Truth value of an optional string: \<open>None\<close> and the empty string are false.\<close>

definition truthy :: "string option \<Rightarrow> bool" where
  "truthy v = (case v of None \<Rightarrow> False | Some s \<Rightarrow> s \<noteq> [])"

datatype report_entry =
    ErrorEntry string
  | StatusEntry int string
  | WarningEntry string

record ticket_payload =
  p_project :: string
  p_summary :: string
  p_description :: adf_doc
  p_issuetype :: string
  p_priority :: string

text \<open>
  What the creation request for one bug meets: an exception, or a response with its
  status code, its text and the result of \<open>resp.json().get("key")\<close> (\<open>Inl\<close> when that
  raises, \<open>Inr None\<close> when the key is absent).
\<close>

datatype create_outcome =
    CreateRaised string
  | Created int string "string + string option"

text \<open>
  The world of the filer: the outcome of the creation request of each bug index, the
  files by path, and what the attempts of an upload to each issue key meet.
\<close>

record jira_world =
  create_issue :: "nat \<Rightarrow> create_outcome"
  files :: "string \<Rightarrow> file_view"
  attach_net :: "string \<Rightarrow> nat \<Rightarrow> attempt_outcome"

datatype filer_event =
    CreateRequest ticket_payload
  | AttachCall string string "event list"

definition build_payload :: "string \<Rightarrow> bug \<Rightarrow> ticket_payload" where
  "build_payload pkey b =
     \<lparr>p_project = pkey,
      p_summary = (case summary b of None \<Rightarrow> ''QA Bug'' | Some t \<Rightarrow> t),
      p_description = text_to_adf (case description b of None \<Rightarrow> [] | Some t \<Rightarrow> t),
      p_issuetype = ''Bug'',
      p_priority = (case priority b of None \<Rightarrow> ''Medium'' | Some t \<Rightarrow> t)\<rparr>"

text \<open>The body of the loop for the bug \<open>b\<close> at index \<open>idx\<close>: the report and the effects,
  extended.\<close>

definition file_bug ::
  "jira_world \<Rightarrow> string \<Rightarrow> (nat \<rightharpoonup> string) \<Rightarrow> nat \<Rightarrow> bug
     \<Rightarrow> report_entry list \<times> filer_event list \<Rightarrow> report_entry list \<times> filer_event list" where
  "file_bug w pkey clips idx b st =
     (let errors = fst st;
          events = snd st @ [CreateRequest (build_payload pkey b)]
      in case create_issue w idx of
           CreateRaised e \<Rightarrow> (errors @ [ErrorEntry e], events)
         | Created status_code body js \<Rightarrow>
             if status_code \<ge> 300 then (errors @ [StatusEntry status_code body], events)
             else
               (case js of
                  Inl e \<Rightarrow> (errors @ [ErrorEntry e], events)
                | Inr issue_key \<Rightarrow>
                    (case (issue_key, clips idx) of
                       (Some key, Some video_path) \<Rightarrow>
                         if key \<noteq> [] then
                           (if f_exists (files w video_path) then
                              (let r = attach_file_to_issue (files w video_path) video_path
                                         (attach_net w key) 3;
                                   attached = fst (fst r);
                                   error_msg = snd (fst r);
                                   events = events @ [AttachCall key video_path (snd r)]
                               in if \<not> attached
                                  then (errors @ [WarningEntry (''Failed to attach video to '' @ key
                                                     @ '': '' @ error_msg)], events)
                                  else (errors, events))
                            else (errors, events))
                         else (errors, events)
                     | _ \<Rightarrow> (errors, events))))"

fun filer_loop ::
  "jira_world \<Rightarrow> string \<Rightarrow> (nat \<rightharpoonup> string) \<Rightarrow> nat \<Rightarrow> bug list
     \<Rightarrow> report_entry list \<times> filer_event list \<Rightarrow> report_entry list \<times> filer_event list" where
  "filer_loop w pkey clips idx [] st = st"
| "filer_loop w pkey clips idx (b # bs) st =
     filer_loop w pkey clips (idx + 1) bs (file_bug w pkey clips idx b st)"

definition create_issues ::
  "jira_config \<Rightarrow> jira_world \<Rightarrow> bug list \<Rightarrow> (nat \<rightharpoonup> string) option
     \<Rightarrow> report_entry list \<times> filer_event list" where
  "create_issues cfg w bugs_list clip_map =
     (if \<not> (truthy (jira_url cfg) \<and> truthy (jira_token cfg) \<and> truthy (jira_email cfg)
             \<and> truthy (project_key cfg))
      then ([ErrorEntry ''Missing Jira environment variables''], [])
      else
        (let clips = (case clip_map of None \<Rightarrow> Map.empty | Some m \<Rightarrow> m)
         in filer_loop w (the (project_key cfg)) clips 0 bugs_list ([], [])))"

section \<open>The specification's vocabulary for the uploader\<close>

text \<open>
  The specification's words, to be compared with the code above. An MP4 signature: the
  \<open>ftyp\<close> box type at offset 4, after a box size of any value, or after the box
  size 32 written out.
\<close>

definition mp4_signature :: "string \<Rightarrow> bool" where
  "mp4_signature header =
     (take 4 (drop 4 header) = ''ftyp'' \<or>
      take 8 header = [CHR 0x00, CHR 0x00, CHR 0x00, CHR 0x20] @ ''ftyp'')"

text \<open>The four pre-flight failures of the specification: no file at the path, a file of
  0 bytes, a file of more than 10 MiB, first 12 bytes that are no MP4 signature.\<close>

definition preflight_fails :: "file_view \<Rightarrow> bool" where
  "preflight_fails f =
     (\<not> f_exists f \<or>
      (case f_getsize f of
         Inl e \<Rightarrow> False
       | Inr n \<Rightarrow> n = 0 \<or> n > 10 * 1024 * 1024 \<or>
           (case f_read f of Inl e \<Rightarrow> False | Inr bytes \<Rightarrow> \<not> mp4_signature (take 12 bytes))))"

definition preflight_passes :: "file_view \<Rightarrow> bool" where
  "preflight_passes f =
     (f_exists f \<and>
      (case f_getsize f of
         Inl e \<Rightarrow> False
       | Inr n \<Rightarrow> 0 < n \<and> n \<le> 10 * 1024 * 1024 \<and>
           (case f_read f of Inl e \<Rightarrow> False | Inr bytes \<Rightarrow> mp4_signature (take 12 bytes))))"

text \<open>The classes of what an attempt meets: a success status, and the
  retryable outcomes (a 5xx status, a timeout or another exception of the request).\<close>

definition is_success :: "attempt_outcome \<Rightarrow> bool" where
  "is_success out = (case out of Response status_code text \<Rightarrow> status_code < 300 | _ \<Rightarrow> False)"

definition retryable :: "attempt_outcome \<Rightarrow> bool" where
  "retryable out =
     (case out of
        Response status_code text \<Rightarrow> 500 \<le> status_code \<and> status_code < 600
      | Timeout \<Rightarrow> True
      | RequestException e \<Rightarrow> True
      | OtherException e \<Rightarrow> True
      | OpenFailed e \<Rightarrow> False)"

text \<open>A file of 2 MiB that starts with an \<open>ftyp\<close> box, and files that fail one check each.\<close>

definition sample_mp4 :: file_view where
  "sample_mp4 =
     \<lparr>f_exists = True, f_getsize = Inr (2 * 1024 * 1024),
      f_read = Inr ([CHR 0x00, CHR 0x00, CHR 0x00, CHR 0x18] @ ''ftypmp42'' @ ''....'')\<rparr>"

section \<open>The specification's vocabulary for the recovery\<close>

text \<open>
  The specification's words, to be compared with the slicing by indices of the code: the
  substring from the first \<open>opening\<close> to the last \<open>closing\<close>, both included. It is
  empty when no \<open>closing\<close> follows the first \<open>opening\<close>.
\<close>

definition between :: "char \<Rightarrow> char \<Rightarrow> string \<Rightarrow> string" where
  "between opening closing s =
     rev (dropWhile (\<lambda>x. x \<noteq> closing) (rev (dropWhile (\<lambda>x. x \<noteq> opening) s)))"

section \<open>The specification's vocabulary for the transcript\<close>

text \<open>
  The fields of a segment, read in the same way from both shapes, and the line of the
  specification for one segment: \<open>[<start>-<end>s] <text>\<close>, where a missing end is
  \<open>max(start, 0)\<close>, start and end are cut to whole seconds and right-aligned in three
  columns, and the text is stripped.
\<close>

fun seg_start :: "segment \<Rightarrow> rat option" where
  "seg_start (DictSeg st en tx) = st"
| "seg_start (ObjSeg st en tx) = st"

fun seg_end :: "segment \<Rightarrow> rat option" where
  "seg_end (DictSeg st en tx) = en"
| "seg_end (ObjSeg st en tx) = en"

fun seg_text :: "segment \<Rightarrow> string" where
  "seg_text (DictSeg st en tx) = (case tx of None \<Rightarrow> [] | Some t \<Rightarrow> t)"
| "seg_text (ObjSeg st en tx) = (case tx of None \<Rightarrow> [] | Some t \<Rightarrow> t)"

definition spec_line :: "segment \<Rightarrow> string" where
  "spec_line seg =
     (let start = (case seg_start seg of None \<Rightarrow> 0 | Some x \<Rightarrow> x);
          finish = (case seg_end seg of None \<Rightarrow> max start 0 | Some y \<Rightarrow> y)
      in ''['' @ rjust 3 (str_of_int (py_int start)) @ ''-'' @ rjust 3 (str_of_int (py_int finish))
         @ ''s] '' @ py_strip (seg_text seg))"

text \<open>Two segments, one of each shape, the second without an end.\<close>

definition sample_segments :: "segment list" where
  "sample_segments =
     [DictSeg (Some (19 / 10)) (Some (39 / 10)) (Some '' hello ''),
      ObjSeg (Some (- (3 / 2))) None (Some ''x'')]"

section \<open>A sample run of the filer\<close>

text \<open>A complete configuration, one bug, and a world in which every creation succeeds
  with the key \<open>QA-1\<close> and no clip file is left on disk.\<close>

definition sample_config :: jira_config where
  "sample_config =
     \<lparr>jira_url = Some ''https://tracker.example'', jira_token = Some ''token'',
      jira_email = Some ''qa@example.org'', project_key = Some ''QA''\<rparr>"

definition sample_bug :: bug where
  "sample_bug =
     \<lparr>summary = Some ''Login button unresponsive'', description = Some ''Expected: login'',
      priority = Some ''High'', start_sec = Some 9, end_sec = Some 12\<rparr>"

definition gone_world :: jira_world where
  "gone_world =
     \<lparr>create_issue = (\<lambda>idx. Created 201 ''{\"key\":\"QA-1\"}'' (Inr (Some ''QA-1''))),
      files = (\<lambda>path. sample_mp4\<lparr>f_exists := False\<rparr>),
      attach_net = (\<lambda>key attempt. Response 200 [])\<rparr>"

section \<open>Properties of the clip planner\<close>

declare str_of_nat.simps [simp del]





section \<open>Properties of the rich-text conversion\<close>

lemma py_strip_blank: "\<forall>c\<in>set s. is_space c \<Longrightarrow> py_strip s = []"
  by (auto simp: py_strip_def dest: set_dropWhileD)

lemma py_strip_Nil: "py_strip [] = []"
  by (simp add: py_strip_def)

text \<open>
  Claim C8, as stated, fails: the whitespace-only text of three blanks, a line feed and
  two blanks is converted into a document whose content list holds one paragraph node.
\<close>

theorem text_to_adf_whitespace_counterexample:
  "content (text_to_adf (''   '' @ [newline] @ ''  '')) = [AdfParagraph []] \<and>
   length (content (text_to_adf (''   '' @ [newline] @ ''  ''))) \<noteq> 0"
  by (simp add: text_to_adf_def py_strip_def is_space_def newline_def)

text \<open>
  Claim C8, amended. The empty string is converted into a document with an empty content
  list; a text that is not empty and holds whitespace only is converted into a document
  whose content list is exactly one paragraph node with no content.
\<close>

theorem text_to_adf_blank:
  "text_to_adf [] = \<lparr>version = 1, doc_type = ''doc'', content = []\<rparr> \<and>
   (text \<noteq> [] \<and> (\<forall>c\<in>set text. is_space c) \<longrightarrow>
      text_to_adf text = \<lparr>version = 1, doc_type = ''doc'', content = [AdfParagraph []]\<rparr>)"
  by (simp add: text_to_adf_def py_strip_blank py_strip_Nil)

theorem text_to_adf_blank_witness:
  "(''   '' @ [newline] @ ''  '') \<noteq> [] \<and>
   list_all is_space (''   '' @ [newline] @ ''  '') \<and>
   text_to_adf (''   '' @ [newline] @ ''  '') =
     \<lparr>version = 1, doc_type = ''doc'', content = [AdfParagraph []]\<rparr>"
  using text_to_adf_blank [of "''   '' @ [newline] @ ''  ''"]
  by (simp add: is_space_def newline_def)

section \<open>Properties of the attachment uploader\<close>

declare upload_loop.simps [simp del]

lemma upload_loop_done:
  "\<not> int a < k \<Longrightarrow>
   upload_loop net fn t k a le tr =
     ((False, (case le of None \<Rightarrow> ''Upload failed after all retries''
               | Some m \<Rightarrow> if m = [] then ''Upload failed after all retries'' else m)), tr)"
  by (subst upload_loop.simps) simp

lemma upload_loop_return:
  "int a < k \<Longrightarrow> try_attempt a k (net a) = Return r \<Longrightarrow>
   upload_loop net fn t k a le tr = (r, tr @ posted fn t (net a))"
  by (subst upload_loop.simps) simp

lemma upload_loop_next:
  "int a < k \<Longrightarrow> try_attempt a k (net a) = Next le' \<Longrightarrow>
   upload_loop net fn t k a le tr =
     upload_loop net fn t k (a + 1) le'
       (tr @ posted fn t (net a) @ (if int a < k - 1 then [Sleep (2 ^ a)] else []))"
  by (subst upload_loop.simps) simp

lemma try_attempt_return: "try_attempt a k out = Return (b, m) \<Longrightarrow> (m = []) = b"
  by (cases out) (auto simp: Let_def split: if_splits)

lemma upload_loop_message:
  "(snd (fst (upload_loop net fn t k a le tr)) = []) = fst (fst (upload_loop net fn t k a le tr))"
proof (induction net fn t k a le tr rule: upload_loop.induct)
  case (1 net fn t k a le tr)
  show ?case
  proof (cases "int a < k")
    case False
    then show ?thesis by (simp add: upload_loop_done split: option.splits)
  next
    case True
    show ?thesis
    proof (cases "try_attempt a k (net a)")
      case (Return r)
      obtain b m where r: "r = (b, m)" by (cases r)
      from Return r have "(m = []) = b" by (simp add: try_attempt_return)
      with True Return r show ?thesis by (simp add: upload_loop_return)
    next
      case (Next le')
      from "1.IH" [OF True refl Next refl] True Next show ?thesis
        by (cases "int a < k - 1") (simp_all add: upload_loop_next)
    qed
  qed
qed

text \<open>
  Claim C9. For every file, path, sequence of outcomes of the network layer and retry
  bound, the upload operation returns a pair (every exception of the source is a branch
  of the total function \<open>attach_file_to_issue\<close>), and the message of the pair is the
  empty string exactly when the success flag is true.
\<close>

theorem attach_message_empty_iff_success:
  "(snd (fst (attach_file_to_issue f file_path net max_retries)) = []) =
     fst (fst (attach_file_to_issue f file_path net max_retries))"
  by (simp add: attach_file_to_issue_def Let_def upload_loop_message split: sum.splits)

lemma valid_header_iff: "valid_header h = mp4_signature h"
proof -
  have a: "py_slice h 4 8 = take 4 (drop 4 h)" by (simp add: py_slice_def)
  have "length (py_slice h 0 4) \<le> 4" by (simp add: py_slice_def)
  then have b: "py_slice h 0 4 \<noteq> [CHR 0x00, CHR 0x00, CHR 0x00, CHR 0x20] @ ''ftyp''"
    by auto
  have c: "take 4 (drop 4 h) = ''ftyp''"
    if "take 8 h = [CHR 0x00, CHR 0x00, CHR 0x00, CHR 0x20] @ ''ftyp''"
  proof -
    have "take 4 (drop 4 h) = drop 4 (take 8 h)" by (simp add: drop_take)
    with that show ?thesis by simp
  qed
  show ?thesis unfolding valid_header_def mp4_signature_def using a b c by auto
qed

lemma attach_passes:
  assumes "preflight_passes f"
  shows "attach_file_to_issue f file_path net k =
           upload_loop net (upload_name file_path) 60 k 0 None []"
proof -
  from assms obtain n bytes where n: "f_exists f" "f_getsize f = Inr n" "0 < n"
      "n \<le> 10 * 1024 * 1024" "f_read f = Inr bytes" "mp4_signature (take 12 bytes)"
    by (auto simp: preflight_passes_def split: sum.splits)
  from n(4) have "n div (1024 * 1024) \<le> 10" by simp
  then have t: "min (max 60 (n div (1024 * 1024))) 300 = 60" by simp
  from n t show ?thesis
    by (simp add: attach_file_to_issue_def Let_def valid_header_iff)
qed

text \<open>
  Claim C1. When a pre-flight check fails (the path does not exist, the file has 0 bytes,
  the file has more than 10 MiB, or its first 12 bytes are no MP4 signature in either
  layout), the upload operation returns \<open>False\<close> with a message, and its trace of effects
  is empty: no request and no sleep, whatever the network would answer and whatever the
  retry bound.
\<close>

theorem attach_preflight_terminal:
  assumes "preflight_fails f"
  shows "fst (fst (attach_file_to_issue f file_path net max_retries)) = False \<and>
         snd (fst (attach_file_to_issue f file_path net max_retries)) \<noteq> [] \<and>
         snd (attach_file_to_issue f file_path net max_retries) = []"
  using assms
  by (auto simp: preflight_fails_def attach_file_to_issue_def Let_def valid_header_iff
           split: sum.splits)

theorem attach_preflight_terminal_witness:
  "preflight_fails (sample_mp4\<lparr>f_exists := False\<rparr>) \<and>
   preflight_fails (sample_mp4\<lparr>f_getsize := Inr 0\<rparr>) \<and>
   preflight_fails (sample_mp4\<lparr>f_getsize := Inr (11 * 1024 * 1024)\<rparr>) \<and>
   preflight_fails (sample_mp4\<lparr>f_read := Inr ''GIF89a..........''\<rparr>) \<and>
   attach_file_to_issue (sample_mp4\<lparr>f_exists := False\<rparr>) ''clip.mp4'' (\<lambda>k. Response 200 []) 3
     = ((False, ''File not found: clip.mp4''), []) \<and>
   attach_file_to_issue (sample_mp4\<lparr>f_getsize := Inr 0\<rparr>) ''clip.mp4'' (\<lambda>k. Response 200 []) 3
     = ((False, ''File is empty''), []) \<and>
   attach_file_to_issue (sample_mp4\<lparr>f_getsize := Inr (11 * 1024 * 1024)\<rparr>) ''clip.mp4''
       (\<lambda>k. Response 200 []) 3
     = ((False, ''File too large: 11.0MB (max 10MB)''), []) \<and>
   attach_file_to_issue (sample_mp4\<lparr>f_read := Inr ''GIF89a..........''\<rparr>) ''clip.mp4''
       (\<lambda>k. Response 200 []) 3
     = ((False, ''File does not appear to be a valid MP4''), [])"
  using attach_preflight_terminal [of "sample_mp4\<lparr>f_getsize := Inr 0\<rparr>" "''clip.mp4''"
          "\<lambda>k. Response 200 []" 3]
  by (simp add: preflight_fails_def sample_mp4_def mp4_signature_def attach_file_to_issue_def
        valid_header_def py_slice_def fmt_mb_def Let_def digit_char_def str_of_nat.simps)

text \<open>
  Claim C2. When the pre-flight checks pass, the retry bound allows a first attempt and
  that attempt is answered with a 4xx status, the operation returns \<open>False\<close> with the
  message \<open>HTTP <status>: <text>\<close>, and its trace is the one request: no sleep and no
  second request.
\<close>

theorem attach_client_error_terminal:
  assumes "preflight_passes f" and "0 < max_retries"
    and "net 0 = Response status_code text"
    and "400 \<le> status_code" and "status_code < 500"
  shows "attach_file_to_issue f file_path net max_retries =
           ((False, ''HTTP '' @ str_of_int status_code @ '': '' @
                      (if text \<noteq> [] then take 500 text else ''No error message'')),
            [Post (upload_name file_path) 60])"
proof -
  from assms have r: "try_attempt 0 max_retries (net 0) =
      Return (False, ''HTTP '' @ str_of_int status_code @ '': '' @
                      (if text \<noteq> [] then take 500 text else ''No error message''))"
    by (simp add: Let_def)
  from assms(2) have "int 0 < max_retries" by simp
  from upload_loop_return [of 0 max_retries net _ "upload_name file_path" 60 None "[]", OF this r]
    assms(1,3) show ?thesis
    by (simp add: attach_passes posted_def)
qed

theorem attach_client_error_terminal_witness:
  "preflight_passes sample_mp4 \<and>
   attach_file_to_issue sample_mp4 ''/tmp/clip.mp4'' (\<lambda>k. Response 400 ''Bad Request'') 3 =
     ((False, ''HTTP 400: Bad Request''), [Post ''clip.mp4'' 60])"
  using attach_client_error_terminal [of sample_mp4 3 "\<lambda>k. Response 400 ''Bad Request''" 400
          "''Bad Request''" "''/tmp/clip.mp4''"]
  by (simp add: preflight_passes_def sample_mp4_def mp4_signature_def str_of_int_def
        str_of_nat.simps digit_char_def upload_name_def basename_def py_rfind_def endswith_def
        lower_char_def)

lemma try_attempt_next: "try_attempt a k out = Next le \<Longrightarrow> \<exists>m. le = Some m \<and> m \<noteq> []"
  by (cases out) (auto simp: Let_def split: if_splits)

lemma retryable_next:
  "retryable out \<Longrightarrow> \<exists>m. m \<noteq> [] \<and> try_attempt a k out = Next (Some m)"
  by (cases out) (auto simp: retryable_def Let_def)

lemma retryable_posted: "retryable out \<Longrightarrow> posted fn t out = [Post fn t]"
  by (cases out) (auto simp: retryable_def posted_def)

lemma is_success_return: "is_success out \<Longrightarrow> try_attempt a k out = Return (True, [])"
  by (cases out) (auto simp: is_success_def)

lemma is_success_posted: "is_success out \<Longrightarrow> posted fn t out = [Post fn t]"
  by (cases out) (auto simp: is_success_def posted_def)

lemma loop3_first:
  assumes "retryable (net 0)"
  shows "\<exists>m. upload_loop net fn t 3 0 le tr =
               upload_loop net fn t 3 1 (Some m) (tr @ [Post fn t, Sleep 1])"
proof -
  from retryable_next [OF assms] obtain m where m: "try_attempt 0 3 (net 0) = Next (Some m)"
    by blast
  from upload_loop_next [of 0 3 net "Some m" fn t le tr] m retryable_posted [OF assms]
  show ?thesis by auto
qed

lemma loop3_second:
  assumes "retryable (net 1)"
  shows "\<exists>m. upload_loop net fn t 3 1 le tr =
               upload_loop net fn t 3 2 (Some m) (tr @ [Post fn t, Sleep 2])"
proof -
  from retryable_next [OF assms] obtain m where m: "try_attempt 1 3 (net 1) = Next (Some m)"
    by blast
  from upload_loop_next [of 1 3 net "Some m" fn t le tr] m retryable_posted [OF assms]
  show ?thesis by (auto simp: numeral_2_eq_2)
qed

lemma loop3_third:
  assumes "retryable (net 2)"
  shows "\<exists>m. try_attempt 2 3 (net 2) = Next (Some m) \<and>
              upload_loop net fn t 3 2 le tr = ((False, m), tr @ [Post fn t])"
proof -
  from retryable_next [OF assms] obtain m where m: "try_attempt 2 3 (net 2) = Next (Some m)"
      and ne: "m \<noteq> []"
    by blast
  from upload_loop_next [of 2 3 net "Some m" fn t le tr] m retryable_posted [OF assms]
  have "upload_loop net fn t 3 2 le tr = upload_loop net fn t 3 3 (Some m) (tr @ [Post fn t])"
    by auto
  with ne m show ?thesis by (simp add: upload_loop_done)
qed

lemma loop3_success:
  assumes "is_success (net a)" and "int a < 3"
  shows "upload_loop net fn t 3 a le tr = ((True, []), tr @ [Post fn t])"
  using upload_loop_return [of a 3 net "(True, [])" fn t le tr] assms
  by (simp add: is_success_return is_success_posted)

text \<open>
  Claim C3. With the retry bound 3 and the pre-flight checks passed, an attempt that meets
  a 5xx status or an exception of the request is followed by the next attempt, after a
  sleep of 1 second behind attempt 0 and of 2 seconds behind attempt 1; the first attempt
  answered with a status below 300 ends the operation with \<open>(True, "")\<close>; after three
  retryable attempts the operation returns \<open>False\<close> with the error recorded by the last
  attempt, after the same two sleeps and no third.
\<close>

theorem attach_retry_schedule:
  assumes "preflight_passes f"
  shows
    "(is_success (net 0) \<longrightarrow>
        attach_file_to_issue f file_path net 3 = ((True, []), [Post (upload_name file_path) 60])) \<and>
     (retryable (net 0) \<and> is_success (net 1) \<longrightarrow>
        attach_file_to_issue f file_path net 3 =
          ((True, []), [Post (upload_name file_path) 60, Sleep 1,
                        Post (upload_name file_path) 60])) \<and>
     (retryable (net 0) \<and> retryable (net 1) \<and> is_success (net 2) \<longrightarrow>
        attach_file_to_issue f file_path net 3 =
          ((True, []), [Post (upload_name file_path) 60, Sleep 1,
                        Post (upload_name file_path) 60, Sleep 2,
                        Post (upload_name file_path) 60])) \<and>
     (retryable (net 0) \<and> retryable (net 1) \<and> retryable (net 2) \<longrightarrow>
        fst (fst (attach_file_to_issue f file_path net 3)) = False \<and>
        try_attempt 2 3 (net 2) = Next (Some (snd (fst (attach_file_to_issue f file_path net 3)))) \<and>
        snd (attach_file_to_issue f file_path net 3) =
          [Post (upload_name file_path) 60, Sleep 1,
           Post (upload_name file_path) 60, Sleep 2,
           Post (upload_name file_path) 60])"
proof -
  let ?P = "Post (upload_name file_path) 60"
  let ?r = "attach_file_to_issue f file_path net 3"
  have r: "?r = upload_loop net (upload_name file_path) 60 3 0 None []"
    using assms by (rule attach_passes)
  have c1: "is_success (net 0) \<longrightarrow> ?r = ((True, []), [?P])"
    using loop3_success [of net 0 "upload_name file_path" 60 None "[]"] r by simp
  have c2: "retryable (net 0) \<and> is_success (net 1) \<longrightarrow> ?r = ((True, []), [?P, Sleep 1, ?P])"
  proof
    assume h: "retryable (net 0) \<and> is_success (net 1)"
    from h loop3_first [of net "upload_name file_path" 60 None "[]"] obtain m where
      "upload_loop net (upload_name file_path) 60 3 0 None [] =
         upload_loop net (upload_name file_path) 60 3 1 (Some m) [?P, Sleep 1]"
      by auto
    with h loop3_success [of net 1 "upload_name file_path" 60 "Some m" "[?P, Sleep 1]"] r
    show "?r = ((True, []), [?P, Sleep 1, ?P])" by simp
  qed
  have c3: "retryable (net 0) \<and> retryable (net 1) \<and> is_success (net 2) \<longrightarrow>
              ?r = ((True, []), [?P, Sleep 1, ?P, Sleep 2, ?P])"
  proof
    assume h: "retryable (net 0) \<and> retryable (net 1) \<and> is_success (net 2)"
    from h loop3_first [of net "upload_name file_path" 60 None "[]"] obtain m where
      a: "upload_loop net (upload_name file_path) 60 3 0 None [] =
         upload_loop net (upload_name file_path) 60 3 1 (Some m) [?P, Sleep 1]"
      by auto
    from h loop3_second [of net "upload_name file_path" 60 "Some m" "[?P, Sleep 1]"]
    obtain m' where
      b: "upload_loop net (upload_name file_path) 60 3 1 (Some m) [?P, Sleep 1] =
         upload_loop net (upload_name file_path) 60 3 2 (Some m') [?P, Sleep 1, ?P, Sleep 2]"
      by auto
    from h loop3_success [of net 2 "upload_name file_path" 60 "Some m'"
        "[?P, Sleep 1, ?P, Sleep 2]"]
    have "upload_loop net (upload_name file_path) 60 3 2 (Some m') [?P, Sleep 1, ?P, Sleep 2] =
            ((True, []), [?P, Sleep 1, ?P, Sleep 2, ?P])"
      by simp
    with a b r show "?r = ((True, []), [?P, Sleep 1, ?P, Sleep 2, ?P])" by (simp only:)
  qed
  have c4: "retryable (net 0) \<and> retryable (net 1) \<and> retryable (net 2) \<longrightarrow>
        fst (fst ?r) = False \<and>
        try_attempt 2 3 (net 2) = Next (Some (snd (fst ?r))) \<and>
        snd ?r = [?P, Sleep 1, ?P, Sleep 2, ?P]"
  proof
    assume h: "retryable (net 0) \<and> retryable (net 1) \<and> retryable (net 2)"
    from h loop3_first [of net "upload_name file_path" 60 None "[]"] obtain m where
      a: "upload_loop net (upload_name file_path) 60 3 0 None [] =
         upload_loop net (upload_name file_path) 60 3 1 (Some m) [?P, Sleep 1]"
      by auto
    from h loop3_second [of net "upload_name file_path" 60 "Some m" "[?P, Sleep 1]"]
    obtain m' where
      b: "upload_loop net (upload_name file_path) 60 3 1 (Some m) [?P, Sleep 1] =
         upload_loop net (upload_name file_path) 60 3 2 (Some m') [?P, Sleep 1, ?P, Sleep 2]"
      by auto
    from h loop3_third [of net "upload_name file_path" 60 "Some m'" "[?P, Sleep 1, ?P, Sleep 2]"]
    obtain m'' where
      c: "try_attempt 2 3 (net 2) = Next (Some m'')"
         "upload_loop net (upload_name file_path) 60 3 2 (Some m') [?P, Sleep 1, ?P, Sleep 2] =
            ((False, m''), [?P, Sleep 1, ?P, Sleep 2, ?P])"
      by auto
    from a b c(2) r have "?r = ((False, m''), [?P, Sleep 1, ?P, Sleep 2, ?P])" by (simp only:)
    with c(1) show "fst (fst ?r) = False \<and>
        try_attempt 2 3 (net 2) = Next (Some (snd (fst ?r))) \<and>
        snd ?r = [?P, Sleep 1, ?P, Sleep 2, ?P]"
      by simp
  qed
  show ?thesis by (rule conjI [OF c1 conjI [OF c2 conjI [OF c3 c4]]])
qed

theorem attach_retry_schedule_witness:
  "preflight_passes sample_mp4 \<and>
   retryable (Response 503 ''busy'') \<and> is_success (Response 200 ''ok'') \<and>
   attach_file_to_issue sample_mp4 ''/tmp/clip.mp4''
       (\<lambda>k. if k < 2 then Response 503 ''busy'' else Response 200 ''ok'') 3 =
     ((True, []), [Post ''clip.mp4'' 60, Sleep 1, Post ''clip.mp4'' 60, Sleep 2,
                   Post ''clip.mp4'' 60])"
  using attach_retry_schedule [of sample_mp4
          "\<lambda>k. if k < 2 then Response 503 ''busy'' else Response 200 ''ok''" "''/tmp/clip.mp4''"]
  by (simp add: preflight_passes_def sample_mp4_def mp4_signature_def retryable_def is_success_def
        upload_name_def basename_def py_rfind_def endswith_def lower_char_def)

section \<open>Properties of the recovery of the model's JSON\<close>

lemma py_find_eq:
  "py_find c s = (if c \<in> set s then int (length (takeWhile (\<lambda>x. x \<noteq> c) s)) else -1)"
  by (induction s) (auto simp: Let_def)

lemma py_rfind_eq:
  "py_rfind c s =
     (if c \<in> set s then int (length (dropWhile (\<lambda>x. x \<noteq> c) (rev s))) - 1 else -1)"
proof -
  have "length (takeWhile (\<lambda>x. x \<noteq> c) (rev s)) + length (dropWhile (\<lambda>x. x \<noteq> c) (rev s)) = length s"
    by (metis length_append length_rev takeWhile_dropWhile_id)
  then show ?thesis by (auto simp: py_rfind_def py_find_eq Let_def)
qed

lemma rev_dropWhile_rev_take:
  "rev (dropWhile P (rev xs)) = take (length (dropWhile P (rev xs))) xs"
proof -
  have "rev xs = takeWhile P (rev xs) @ dropWhile P (rev xs)" by simp
  then have "xs = rev (dropWhile P (rev xs)) @ rev (takeWhile P (rev xs))"
    by (metis rev_append rev_rev_ident)
  then have "take (length (rev (dropWhile P (rev xs)))) xs = rev (dropWhile P (rev xs))"
    by (metis append_eq_conv_conj)
  then show ?thesis by simp
qed

lemma py_slice_between:
  assumes "c \<in> set s" and "d \<in> set s"
  shows "py_slice s (py_find c s) (py_rfind d s + 1) = between c d s"
proof -
  let ?A = "takeWhile (\<lambda>x. x \<noteq> c) s"
  let ?B = "dropWhile (\<lambda>x. x \<noteq> c) s"
  have s: "s = ?A @ ?B" by simp
  have dropA: "drop (length ?A) s = ?B" by (metis append_eq_conv_conj s)
  have lhs: "py_slice s (py_find c s) (py_rfind d s + 1) =
         take (length (dropWhile (\<lambda>x. x \<noteq> d) (rev s)) - length ?A) ?B"
    using assms dropA by (simp add: py_slice_def py_find_eq py_rfind_eq)
  have revs: "rev s = rev ?B @ rev ?A" by (metis rev_append s)
  show ?thesis
  proof (cases "d \<in> set ?B")
    case True
    then have "dropWhile (\<lambda>x. x \<noteq> d) (rev ?B @ rev ?A) = dropWhile (\<lambda>x. x \<noteq> d) (rev ?B) @ rev ?A"
      by (intro dropWhile_append1 [of d]) auto
    with revs have "length (dropWhile (\<lambda>x. x \<noteq> d) (rev s)) - length ?A =
        length (dropWhile (\<lambda>x. x \<noteq> d) (rev ?B))"
      by simp
    with lhs show ?thesis
      unfolding between_def using rev_dropWhile_rev_take [of "\<lambda>x. x \<noteq> d" ?B] by simp
  next
    case False
    then have all: "\<forall>x\<in>set (rev ?B). x \<noteq> d" by auto
    then have "dropWhile (\<lambda>x. x \<noteq> d) (rev ?B @ rev ?A) = dropWhile (\<lambda>x. x \<noteq> d) (rev ?A)"
      by (intro dropWhile_append2) auto
    with revs have "length (dropWhile (\<lambda>x. x \<noteq> d) (rev s)) \<le> length ?A"
      by (metis length_dropWhile_le length_rev)
    moreover from all have "dropWhile (\<lambda>x. x \<noteq> d) (rev ?B) = []" by simp
    ultimately show ?thesis using lhs by (simp add: between_def)
  qed
qed

lemma py_find_absent: "(py_find c s = -1) = (c \<notin> set s)"
  by (simp add: py_find_eq)

lemma py_rfind_absent: "(py_rfind c s = -1) = (c \<notin> set s)"
proof (cases "c \<in> set s")
  case True
  then have "dropWhile (\<lambda>x. x \<noteq> c) (rev s) \<noteq> []" by (simp add: dropWhile_eq_Nil_conv)
  then have "0 < length (dropWhile (\<lambda>x. x \<noteq> c) (rev s))" by simp
  with True show ?thesis by (simp add: py_rfind_eq)
next
  case False
  then show ?thesis by (simp add: py_rfind_eq)
qed

text \<open>
  Claim C4. For every reply text \<open>raw\<close>, with a parser that reads \<open>[]\<close> as the empty
  array and rejects the empty text (as \<open>json.loads\<close> does): the bug extractor returns
  the parsed value when \<open>raw\<close> parses; otherwise, when \<open>raw\<close> holds a \<open>[\<close> and a
  \<open>]\<close>, the parse of the substring from the first \<open>[\<close> to the last \<open>]\<close>, or the empty
  array when that substring does not parse; otherwise the empty array. No parse failure
  escapes: the function is total.
\<close>

theorem analyze_recovery:
  assumes "loads ''[]'' = Some (JArr [])" and "loads [] = None"
  shows "analyze_with_transcript loads (Some raw) =
     (case loads raw of
        Some v \<Rightarrow> v
      | None \<Rightarrow>
          if CHR ''['' \<in> set raw \<and> CHR '']'' \<in> set raw
          then (case loads (between CHR ''['' CHR '']'' raw) of Some v \<Rightarrow> v | None \<Rightarrow> JArr [])
          else JArr [])"
proof (cases "raw = []")
  case True
  with assms show ?thesis by (simp add: analyze_with_transcript_def or_default_def)
next
  case False
  then have raw: "or_default (Some raw) ''[]'' = raw" by (simp add: or_default_def)
  show ?thesis
  proof (cases "CHR ''['' \<in> set raw \<and> CHR '']'' \<in> set raw")
    case True
    then have "py_slice raw (py_find CHR ''['' raw) (py_rfind CHR '']'' raw + 1) =
        between CHR ''['' CHR '']'' raw"
      by (simp add: py_slice_between)
    with True show ?thesis
      by (simp add: analyze_with_transcript_def raw Let_def py_find_absent py_rfind_absent
            split: option.splits)
  next
    case False
    with assms(1) show ?thesis
      by (auto simp: analyze_with_transcript_def raw Let_def py_find_absent py_rfind_absent
            split: option.splits)
  qed
qed

text \<open>
  Claim C5, amended. For every reply text on which the strict parse fails, with a parser
  that reads \<open>{}\<close> as the empty object: when the text holds a \<open>{\<close> and a \<open>}\<close> and
  the substring from the first \<open>{\<close> to the last \<open>}\<close> does not parse, the result is
  the sentinel object; when the text lacks a \<open>{\<close> or a \<open>}\<close>, the result is the empty
  object. No parse failure escapes.
\<close>

theorem find_candidate_recovery:
  assumes "loads ''{}'' = Some (JObj [])" and "loads raw = None"
  shows "(CHR ''{'' \<in> set raw \<and> CHR ''}'' \<in> set raw \<and>
          loads (between CHR ''{'' CHR ''}'' raw) = None
            \<longrightarrow> find_candidate_seconds loads (Some raw) = parsing_failed) \<and>
         (\<not> (CHR ''{'' \<in> set raw \<and> CHR ''}'' \<in> set raw)
            \<longrightarrow> find_candidate_seconds loads (Some raw) = JObj [])"
proof (cases "raw = []")
  case True
  with assms show ?thesis by (simp add: find_candidate_seconds_def or_default_def)
next
  case False
  then have raw: "or_default (Some raw) ''{}'' = raw" by (simp add: or_default_def)
  show ?thesis
  proof (cases "CHR ''{'' \<in> set raw \<and> CHR ''}'' \<in> set raw")
    case True
    then have "py_slice raw (py_find CHR ''{'' raw) (py_rfind CHR ''}'' raw + 1) =
        between CHR ''{'' CHR ''}'' raw"
      by (simp add: py_slice_between)
    with True assms(2) show ?thesis
      by (simp add: find_candidate_seconds_def raw Let_def py_find_absent py_rfind_absent)
  next
    case False
    with assms show ?thesis
      by (auto simp: find_candidate_seconds_def raw Let_def py_find_absent py_rfind_absent)
  qed
qed

theorem analyze_recovery_witness:
  "loads_sample ''[]'' = Some (JArr []) \<and> loads_sample [] = None \<and>
   analyze_with_transcript loads_sample (Some ''[{\"summary\":\"X\"}]'') =
     JArr [JObj [(''summary'', JStr ''X'')]] \<and>
   analyze_with_transcript loads_sample
       (Some ''Sure! Here you go: [{\"summary\":\"X\"}] Thanks'') =
     JArr [JObj [(''summary'', JStr ''X'')]] \<and>
   analyze_with_transcript loads_sample (Some ''no JSON here'') = JArr []"
  using analyze_recovery [of loads_sample "''[{\"summary\":\"X\"}]''"]
        analyze_recovery [of loads_sample "''Sure! Here you go: [{\"summary\":\"X\"}] Thanks''"]
        analyze_recovery [of loads_sample "''no JSON here''"]
  by (simp add: loads_sample_def between_def)

text \<open>
  Claim C5, as stated, fails on a text without braces: the strict parse of \<open>garbage\<close>
  fails, the code then parses the literal \<open>{}\<close> and returns the empty object, not the
  sentinel.
\<close>

theorem find_candidate_no_braces_counterexample:
  "loads_sample ''garbage'' = None \<and>
   CHR ''{'' \<notin> set ''garbage'' \<and> CHR ''}'' \<notin> set ''garbage'' \<and>
   find_candidate_seconds loads_sample (Some ''garbage'') = JObj [] \<and>
   find_candidate_seconds loads_sample (Some ''garbage'') \<noteq> parsing_failed"
  by (simp add: find_candidate_seconds_def loads_sample_def or_default_def py_rfind_def
        parsing_failed_def)

theorem find_candidate_recovery_witness:
  "loads_sample ''{}'' = Some (JObj []) \<and> loads_sample ''{not json}'' = None \<and>
   loads_sample (between CHR ''{'' CHR ''}'' ''{not json}'') = None \<and>
   find_candidate_seconds loads_sample (Some ''{not json}'') = parsing_failed \<and>
   loads_sample ''not json'' = None \<and>
   find_candidate_seconds loads_sample (Some ''not json'') = JObj []"
  using find_candidate_recovery [of loads_sample "''{not json}''"]
        find_candidate_recovery [of loads_sample "''not json''"]
  by (simp add: loads_sample_def between_def)

section \<open>Properties of the transcript formatter\<close>

lemma py_int_zero: "py_int 0 = 0"
  by (simp add: py_int_def)

lemma py_int_max: "py_int (max x 0) = max (py_int x) 0"
proof (cases "0 \<le> x")
  case True
  then have "0 \<le> \<lfloor>x\<rfloor>" by simp
  then have "max \<lfloor>x\<rfloor> 0 = \<lfloor>x\<rfloor>" by (rule max_absorb1)
  moreover from True have "max x 0 = x" by (rule max_absorb1)
  ultimately show ?thesis using True by (simp add: py_int_def)
next
  case False
  then have "\<lceil>x\<rceil> \<le> 0" by (simp add: ceiling_le_zero)
  then have "max \<lceil>x\<rceil> 0 = 0" by (rule max_absorb2)
  moreover from False have "max x 0 = 0" by (intro max_absorb2) simp
  ultimately show ?thesis using False by (simp add: py_int_def)
qed

lemma py_int_truncates:
  "\<bar>of_int (py_int x)\<bar> \<le> \<bar>x\<bar> \<and> \<bar>x - of_int (py_int x)\<bar> < 1"
proof (cases "0 \<le> x")
  case True
  then have "0 \<le> \<lfloor>x\<rfloor>" by simp
  moreover have "of_int \<lfloor>x\<rfloor> \<le> x" "x < of_int \<lfloor>x\<rfloor> + 1" by linarith+
  ultimately show ?thesis using True by (simp add: py_int_def)
next
  case False
  then have "\<lceil>x\<rceil> \<le> 0" by (simp add: ceiling_le_zero)
  moreover have "x \<le> of_int \<lceil>x\<rceil>" "of_int \<lceil>x\<rceil> < x + 1" by linarith+
  ultimately show ?thesis using False by (simp add: py_int_def)
qed

lemma seg_line_spec: "seg_line seg = spec_line seg"
  by (cases seg) (simp_all add: spec_line_def Let_def py_int_max py_int_zero split: option.splits)

lemma digit_char_no_newline: "d < 10 \<Longrightarrow> digit_char d \<noteq> newline"
proof -
  assume "d < 10"
  then have "d \<in> {0, 1, 2, 3, 4, 5, 6, 7, 8, 9}" by auto
  then show ?thesis by (auto simp: digit_char_def newline_def)
qed

lemma str_of_nat_no_newline: "newline \<notin> set (str_of_nat n)"
proof (induction n rule: str_of_nat.induct)
  case (1 n)
  show ?case
  proof (cases "n < 10")
    case True
    then show ?thesis using digit_char_no_newline [of n] by (subst str_of_nat.simps) auto
  next
    case False
    with "1.IH" digit_char_no_newline [of "n mod 10"] show ?thesis
      by (subst str_of_nat.simps) auto
  qed
qed

lemma str_of_int_no_newline: "newline \<notin> set (str_of_int i)"
  using str_of_nat_no_newline by (auto simp: str_of_int_def newline_def)

lemma rjust_no_newline: "newline \<notin> set s \<Longrightarrow> newline \<notin> set (rjust w s)"
  by (auto simp: rjust_def newline_def)

lemma spec_line_no_newline:
  assumes "newline \<notin> set (py_strip (seg_text seg))"
  shows "newline \<notin> set (spec_line seg)"
proof -
  have "newline \<notin> set ''[''" "newline \<notin> set ''-''" "newline \<notin> set ''s] ''"
    by (simp_all add: newline_def)
  with assms rjust_no_newline [OF str_of_int_no_newline] show ?thesis
    unfolding spec_line_def Let_def set_append by blast
qed

lemma py_split_no_sep: "c \<notin> set l \<Longrightarrow> py_split c l = [l]"
  by (induction l) auto

lemma py_split_append: "c \<notin> set l \<Longrightarrow> py_split c (l @ c # rest) = l # py_split c rest"
  by (induction l) auto

lemma py_split_join:
  "ls \<noteq> [] \<Longrightarrow> \<forall>l\<in>set ls. c \<notin> set l \<Longrightarrow> py_split c (py_join c ls) = ls"
  by (induction c ls rule: py_join.induct) (auto simp: py_split_no_sep py_split_append)

text \<open>
  Claim C7, amended. The formatter returns the lines of the segments joined by line feeds,
  in input order; the line of a segment is \<open>[<start>-<end>s] <text>\<close> with start and
  end cut to whole seconds (towards zero) and right-aligned in three columns filled with
  blanks, a missing end being \<open>max(start, 0)\<close>, and the text stripped; the empty
  sequence gives the empty string; and when no stripped text holds a line feed, the
  output of a sequence that is not empty splits into exactly one line per segment.
\<close>

theorem flatten_segments_lines:
  "flatten_segments_text [] = [] \<and>
   flatten_segments_text segments = py_join newline (map spec_line segments) \<and>
   (segments \<noteq> [] \<and> (\<forall>seg\<in>set segments. newline \<notin> set (py_strip (seg_text seg)))
      \<longrightarrow> py_split newline (flatten_segments_text segments) = map spec_line segments) \<and>
   \<bar>of_int (py_int x)\<bar> \<le> \<bar>x\<bar> \<and> \<bar>x - of_int (py_int x)\<bar> < 1"
proof -
  have a: "flatten_segments_text [] = []" by (simp add: flatten_segments_text_def)
  have b: "flatten_segments_text segments = py_join newline (map spec_line segments)"
    by (simp add: flatten_segments_text_def seg_line_spec cong: map_cong)
  have c: "py_split newline (flatten_segments_text segments) = map spec_line segments"
    if "segments \<noteq> []" "\<forall>seg\<in>set segments. newline \<notin> set (py_strip (seg_text seg))"
  proof -
    from that have "map spec_line segments \<noteq> []"
      "\<forall>l\<in>set (map spec_line segments). newline \<notin> set l"
      by (auto simp: spec_line_no_newline)
    then show ?thesis unfolding b by (rule py_split_join)
  qed
  from a b c py_int_truncates [of x] show ?thesis by blast
qed

theorem flatten_segments_lines_witness:
  "sample_segments \<noteq> [] \<and>
   list_all (\<lambda>seg. newline \<notin> set (py_strip (seg_text seg))) sample_segments \<and>
   py_split newline (flatten_segments_text sample_segments) =
     [''[  1-  3s] hello'', ''[ -1-  0s] x'']"
proof -
  have h1: "sample_segments \<noteq> []" by (simp add: sample_segments_def)
  have h2: "list_all (\<lambda>seg. newline \<notin> set (py_strip (seg_text seg))) sample_segments"
    by code_simp
  have c: "map spec_line sample_segments = [''[  1-  3s] hello'', ''[ -1-  0s] x'']"
    by code_simp
  from h2 have "\<forall>seg\<in>set sample_segments. newline \<notin> set (py_strip (seg_text seg))"
    by (simp only: list_all_iff)
  with flatten_segments_lines [of sample_segments] h1
  have "py_split newline (flatten_segments_text sample_segments) = map spec_line sample_segments"
    by blast
  with c h1 h2 show ?thesis by (simp only: simp_thms)
qed

text \<open>
  Claim C7, as stated, fails twice: the seconds are padded with blanks, not with zeros
  (the segment from 5 to 7 with the text \<open>hi\<close> gives \<open>[  5-  7s] hi\<close>), and one
  segment whose text holds a line feed gives two lines.
\<close>

theorem flatten_segments_counterexample:
  "flatten_segments_text [DictSeg (Some 5) (Some 7) (Some ''hi'')] = ''[  5-  7s] hi'' \<and>
   flatten_segments_text [DictSeg (Some 5) (Some 7) (Some ''hi'')] \<noteq> ''[005-007s] hi'' \<and>
   py_split newline
       (flatten_segments_text [ObjSeg (Some 0) (Some 1) (Some (''a'' @ [newline] @ ''b''))]) =
     [''[  0-  1s] a'', ''b'']"
  by code_simp

section \<open>Properties of the ticket filer\<close>

lemma file_bug_missing_clip:
  assumes "clips idx = Some video_path" and "\<not> f_exists (files w video_path)"
  shows "file_bug w pkey clips idx b st = file_bug w pkey (clips(idx := None)) idx b st"
  using assms
  by (simp add: file_bug_def Let_def split: create_outcome.splits sum.splits option.splits)

lemma file_bug_other_index:
  "j \<noteq> idx \<Longrightarrow> file_bug w pkey (clips(idx := None)) j b st = file_bug w pkey clips j b st"
  by (simp add: file_bug_def Let_def split: create_outcome.splits sum.splits option.splits)

lemma filer_loop_missing_clip:
  assumes "clips idx = Some video_path" and "\<not> f_exists (files w video_path)"
  shows "filer_loop w pkey clips j bs st = filer_loop w pkey (clips(idx := None)) j bs st"
proof (induction bs arbitrary: j st)
  case Nil
  show ?case by simp
next
  case (Cons b bs)
  have step: "file_bug w pkey clips j b st = file_bug w pkey (clips(idx := None)) j b st"
  proof (cases "j = idx")
    case True
    with file_bug_missing_clip [of clips idx video_path w, OF assms] show ?thesis
      by (simp only:)
  next
    case False
    then show ?thesis by (rule file_bug_other_index [symmetric])
  qed
  show ?case unfolding filer_loop.simps step by (rule Cons.IH)
qed

text \<open>
  Claim C10. When the clip map holds a path for a bug index and no file exists at that
  path at filing time, the filer sends the creation request for the bug and nothing else:
  after a successful creation the report is unchanged and the effects gain the creation
  request only, with no upload call, no warning and no error; the step for that bug, and
  the whole run, are the same as if the index were absent from the clip map.
\<close>

theorem missing_clip_silently_ignored:
  assumes "clips idx = Some video_path" and "\<not> f_exists (files w video_path)"
  shows "(create_issue w idx = Created status_code body (Inr issue_key) \<and> status_code < 300
            \<longrightarrow> file_bug w pkey clips idx b st =
                   (fst st, snd st @ [CreateRequest (build_payload pkey b)])) \<and>
         file_bug w pkey clips idx b st = file_bug w pkey (clips(idx := None)) idx b st \<and>
         create_issues cfg w bugs_list (Some clips) =
           create_issues cfg w bugs_list (Some (clips(idx := None)))"
proof -
  have a: "create_issue w idx = Created status_code body (Inr issue_key) \<and> status_code < 300
            \<longrightarrow> file_bug w pkey clips idx b st =
                   (fst st, snd st @ [CreateRequest (build_payload pkey b)])"
    using assms by (simp add: file_bug_def Let_def split: option.splits)
  have b: "file_bug w pkey clips idx b st = file_bug w pkey (clips(idx := None)) idx b st"
    using file_bug_missing_clip [of clips idx video_path w, OF assms] .
  have c: "create_issues cfg w bugs_list (Some clips) =
           create_issues cfg w bugs_list (Some (clips(idx := None)))"
    using filer_loop_missing_clip [of clips idx video_path w, OF assms]
    by (simp add: create_issues_def)
  show ?thesis by (rule conjI [OF a conjI [OF b c]])
qed

theorem missing_clip_silently_ignored_witness:
  "[0 \<mapsto> ''/tmp/clip0.mp4''] (0::nat) = Some ''/tmp/clip0.mp4'' \<and>
   \<not> f_exists (files gone_world ''/tmp/clip0.mp4'') \<and>
   create_issue gone_world 0 = Created 201 ''{\"key\":\"QA-1\"}'' (Inr (Some ''QA-1'')) \<and>
   create_issues sample_config gone_world [sample_bug] (Some [0 \<mapsto> ''/tmp/clip0.mp4'']) =
     ([], [CreateRequest (build_payload ''QA'' sample_bug)])"
  using missing_clip_silently_ignored [of "[0 \<mapsto> ''/tmp/clip0.mp4'']" 0 "''/tmp/clip0.mp4''"
          gone_world 201 "''{\"key\":\"QA-1\"}''" "Some ''QA-1''" "''QA''" sample_bug "([], [])"
          sample_config "[sample_bug]"]
  by (simp add: gone_world_def sample_config_def create_issues_def truthy_def)

end
